theory Spec2Isabelle
  imports Main "HOL-Library.Word"
begin

section \<open>Failures\<close>

text \<open>
  Go code fails in two ways: a function returns a non-nil \<open>error\<close> value, or the
  runtime panics.  Both are values of one datatype; \<open>is_panic\<close> tells them apart.
\<close>

datatype error =
    IndexOutOfRange           \<comment> \<open>runtime panic: slice index out of range\<close>
  | NilDereference            \<comment> \<open>runtime panic: nil pointer dereference\<close>
  | NilMapAssignment          \<comment> \<open>runtime panic: assignment to entry in nil map\<close>
  | ImageSizeNotPositive      \<comment> \<open>panic of ebiten: width or height of a new image not positive\<close>
  | FrameIndexOutOfBounds     \<comment> \<open>\<open>errors.New("frame index out of bounds")\<close>\<close>
  | LoadFailed                \<comment> \<open>an error returned by \<open>LoadSpriteSheet\<close>\<close>

fun is_panic :: "error \<Rightarrow> bool" where
  "is_panic IndexOutOfRange = True"
| "is_panic NilDereference = True"
| "is_panic NilMapAssignment = True"
| "is_panic ImageSizeNotPositive = True"
| "is_panic FrameIndexOutOfBounds = False"
| "is_panic LoadFailed = False"

section \<open>Sprite sheet metadata (aseprite.go)\<close>

text \<open>
  The JSON records of aseprite.go, with the fields the loaders read.  Go's \<open>int\<close> is
  modelled by \<open>int\<close> where it is an index (a slice index is checked against the
  length before use, so no arithmetic on it can overflow), and the \<open>int64\<close>
  duration of an animation frame by a 64-bit word.
\<close>

record Rect =
  X :: int
  Y :: int
  W :: int
  H :: int

record Frame =
  Frame :: Rect
  Duration :: int

record FrameTag =
  Name :: string
  From :: int
  To :: int
  Direction :: string

record Meta =
  Version :: string
  FrameTags :: "FrameTag list"

text \<open>
  An \<open>*ebiten.Image\<close> is opaque but for its bounds.  The sheet's image, which
  \<open>loadImage\<close> makes with \<open>ebiten.NewImageFromImage\<close>, is a handle with a width and a
  height; its bounds start at \<open>(0, 0)\<close>.  The image made by
  \<open>ebiten.NewImageFromImage(sheet.Image.SubImage(r))\<close> is the pair of that handle and
  the rectangle.
\<close>

record SheetImage =
  Handle :: nat
  Width :: int
  Height :: int

datatype image = SubImage nat Rect

text \<open>
  ebiten is a library outside the repository; the model keeps what its two calls do
  with a rectangle.  \<open>Rect.ImageRect\<close> is \<open>image.Rect(r.X, r.Y, r.X+r.W, r.Y+r.H)\<close>,
  which orders the corners, the sums being those of Go's 64-bit \<open>int\<close>.
  \<open>SubImage\<close> clips the rectangle to the bounds of the image, and
  \<open>NewImageFromImage\<close> panics when its source has a width or a height that is not
  positive, which is when the clipped rectangle is empty.
\<close>

definition go_int :: "int \<Rightarrow> int" where
  "go_int x = sint (word_of_int x :: 64 word)"

definition ImageRect :: "Rect \<Rightarrow> (int \<times> int) \<times> (int \<times> int)" where
  "ImageRect r =
     ((min (X r) (go_int (X r + W r)), min (Y r) (go_int (Y r + H r))),
      (max (X r) (go_int (X r + W r)), max (Y r) (go_int (Y r + H r))))"

definition subImage_empty :: "SheetImage \<Rightarrow> Rect \<Rightarrow> bool" where
  "subImage_empty img r =
     (case ImageRect r of
        ((x0, y0), (x1, y1)) \<Rightarrow>
          min x1 (Width img) \<le> max x0 0 \<or> min y1 (Height img) \<le> max y0 0)"

definition NewImageFromSubImage :: "SheetImage \<Rightarrow> Rect \<Rightarrow> error + image" where
  "NewImageFromSubImage img r =
     (if subImage_empty img r then Inl ImageSizeNotPositive
      else Inr (SubImage (Handle img) r))"

text \<open>\<open>Frames\<close> is a slice of pointers: \<open>None\<close> is a nil pointer.\<close>

record SpriteSheet =
  Frames :: "Frame option list"
  Meta :: Meta
  Image :: SheetImage

record AniFrame =
  FrameIdx :: int
  Image :: image
  DurationMillis :: "64 word"

type_synonym tagmap = "string \<rightharpoonup> AniFrame list"

text \<open>Reading a map at a missing key gives the zero value, a nil slice.\<close>

definition at_tag :: "tagmap \<Rightarrow> string \<Rightarrow> AniFrame list" where
  "at_tag m t = (case m t of None \<Rightarrow> [] | Some fs \<Rightarrow> fs)"

subsection \<open>reverse and pingpong\<close>

text \<open>
  \<open>reverse\<close> swaps in place, \<open>i\<close> running from \<open>0\<close> while \<open>i < len(frames)/2\<close>,
  with \<open>n = len(frames) - 1\<close>.  The loop body does not run on an empty slice, where
  \<open>n\<close> would be \<open>-1\<close>.
\<close>

function reverse_loop :: "nat \<Rightarrow> 'a list \<Rightarrow> 'a list" where
  "reverse_loop i frames =
     (if i < length frames div 2
      then reverse_loop (i + 1)
             (frames[i := frames ! (length frames - 1 - i),
                     length frames - 1 - i := frames ! i])
      else frames)"
  by pat_completeness auto
termination
  by (relation "measure (\<lambda>(i, frames). length frames div 2 - i)") auto

declare reverse_loop.simps [simp del]

definition reverse :: "'a list \<Rightarrow> 'a list" where
  "reverse frames = reverse_loop 0 frames"

text \<open>
  \<open>pingpong\<close> counts \<open>i\<close> down from \<open>len(frames) - 2\<close> while \<open>i >= 1\<close>, appending
  \<open>frames[i]\<close>.  The first argument of \<open>pingpong_loop\<close> is the value of \<open>i\<close> at the
  loop test; a start value below \<open>1\<close> (a slice shorter than three) runs no iteration.
\<close>

fun pingpong_loop :: "nat \<Rightarrow> 'a list \<Rightarrow> 'a list" where
  "pingpong_loop 0 frames = frames"
| "pingpong_loop (Suc k) frames = pingpong_loop k (frames @ [frames ! Suc k])"

definition pingpong :: "'a list \<Rightarrow> 'a list" where
  "pingpong frames = pingpong_loop (length frames - 2) frames"

subsection \<open>loadNoTags and loadWithTags\<close>

text \<open>
  The loop of \<open>loadNoTags\<close> over \<open>sheet.Frames\<close>: \<open>frame.Frame\<close> panics on a nil
  entry, and making the image panics on a rectangle with no pixel of the sheet.
\<close>

fun loadNoTags_loop ::
  "SheetImage \<Rightarrow> int \<Rightarrow> Frame option list \<Rightarrow> tagmap \<Rightarrow> error + tagmap" where
  "loadNoTags_loop sheetImage idx [] byTagName = Inr byTagName"
| "loadNoTags_loop sheetImage idx (None # rest) byTagName = Inl NilDereference"
| "loadNoTags_loop sheetImage idx (Some frame # rest) byTagName =
     (case NewImageFromSubImage sheetImage (Frame frame) of
        Inl e \<Rightarrow> Inl e
      | Inr img \<Rightarrow>
          loadNoTags_loop sheetImage (idx + 1) rest
            (byTagName([] \<mapsto> at_tag byTagName [] @
               [\<lparr>FrameIdx = idx, Image = img,
                 DurationMillis = word_of_int (Duration frame)\<rparr>])))"

definition loadNoTags :: "SpriteSheet \<Rightarrow> error + tagmap" where
  "loadNoTags sheet = loadNoTags_loop (SpriteSheet.Image sheet) 0 (Frames sheet) Map.empty"

text \<open>
  The inner loop of \<open>loadWithTags\<close>: \<open>for i := tag.From; i <= tag.To; i++\<close>, with the
  image cache and the table as its state.  \<open>sheet.Frames[i]\<close> panics out of range,
  \<open>frame.Frame\<close> and \<open>frame.Duration\<close> panic on a nil entry, and on a cache miss
  making the image panics on a rectangle with no pixel of the sheet.
\<close>

function loadTag_loop ::
  "SpriteSheet \<Rightarrow> FrameTag \<Rightarrow> int \<Rightarrow> (int \<rightharpoonup> image) \<times> tagmap
     \<Rightarrow> error + (int \<rightharpoonup> image) \<times> tagmap" where
  "loadTag_loop sheet tag i (imgCache, byTagName) =
     (if i \<le> To tag then
        (if i < 0 \<or> int (length (Frames sheet)) \<le> i then Inl IndexOutOfRange
         else case Frames sheet ! nat i of
           None \<Rightarrow> Inl NilDereference
         | Some frame \<Rightarrow>
             (case (case imgCache i of
                      Some img \<Rightarrow> Inr (img, imgCache)
                    | None \<Rightarrow>
                        (case NewImageFromSubImage (SpriteSheet.Image sheet) (Frame frame) of
                           Inl e \<Rightarrow> Inl e
                         | Inr img \<Rightarrow> Inr (img, imgCache(i \<mapsto> img)))) of
                Inl e \<Rightarrow> Inl e
              | Inr (img, imgCache') \<Rightarrow>
                  loadTag_loop sheet tag (i + 1)
                    (imgCache',
                     byTagName(Name tag \<mapsto> at_tag byTagName (Name tag) @
                       [\<lparr>FrameIdx = i, Image = img,
                         DurationMillis = word_of_int (Duration frame)\<rparr>]))))
      else Inr (imgCache, byTagName))"
  by pat_completeness auto
termination
  by (relation "measure (\<lambda>(sheet, tag, i, st). nat (To tag + 1 - i))") auto

declare loadTag_loop.simps [simp del]

text \<open>The \<open>switch tag.Direction\<close> that follows the inner loop.\<close>

definition applyDirection :: "FrameTag \<Rightarrow> tagmap \<Rightarrow> tagmap" where
  "applyDirection tag byTagName =
     (if Direction tag = ''reverse''
        then byTagName(Name tag \<mapsto> reverse (at_tag byTagName (Name tag)))
      else if Direction tag = ''pingpong''
        then byTagName(Name tag \<mapsto> pingpong (at_tag byTagName (Name tag)))
      else if Direction tag = ''pingpong_reverse''
        then byTagName(Name tag \<mapsto> reverse (pingpong (at_tag byTagName (Name tag))))
      else byTagName)"

fun loadTags_loop ::
  "SpriteSheet \<Rightarrow> FrameTag list \<Rightarrow> (int \<rightharpoonup> image) \<times> tagmap \<Rightarrow> error + tagmap" where
  "loadTags_loop sheet [] (imgCache, byTagName) = Inr byTagName"
| "loadTags_loop sheet (tag # tags) (imgCache, byTagName) =
     (case loadTag_loop sheet tag (From tag) (imgCache, byTagName) of
        Inl e \<Rightarrow> Inl e
      | Inr (imgCache', byTagName') \<Rightarrow>
          loadTags_loop sheet tags (imgCache', applyDirection tag byTagName'))"

definition loadWithTags :: "SpriteSheet \<Rightarrow> error + tagmap" where
  "loadWithTags sheet =
     (case loadNoTags sheet of
        Inl e \<Rightarrow> Inl e
      | Inr byTagName \<Rightarrow>
          loadTags_loop sheet (FrameTags (Meta sheet)) (Map.empty, byTagName))"

text \<open>
  A declared tag whose inner loop reaches an index outside \<open>sheet.Frames\<close>: the loop
  runs at all (\<open>from \<le> to\<close>) and starts below \<open>0\<close> or ends at or beyond the length.
\<close>

definition tag_out_of_range :: "SpriteSheet \<Rightarrow> FrameTag \<Rightarrow> bool" where
  "tag_out_of_range sheet tag \<longleftrightarrow>
     From tag \<le> To tag \<and> (From tag < 0 \<or> int (length (Frames sheet)) \<le> To tag)"

text \<open>
  A sheet whose frames can all be cut out: no entry of \<open>sheet.Frames\<close> is nil, and
  every frame's rectangle has a pixel of the sheet's image.
\<close>

definition frames_ok :: "SpriteSheet \<Rightarrow> bool" where
  "frames_ok sheet =
     (\<forall>fo \<in> set (Frames sheet).
        case fo of
          None \<Rightarrow> False
        | Some frame \<Rightarrow> \<not> subImage_empty (SpriteSheet.Image sheet) (Frame frame))"

section \<open>Animations (animation.go)\<close>

text \<open>
  The repository holds two revisions of animation.go.  \<open>NewAnimation\<close>, \<open>Clone\<close>,
  \<open>Pause\<close>, \<open>Resume\<close>, \<open>Toggle\<close>, \<open>Restart\<close>, \<open>SetTag\<close>, \<open>OnEnd\<close> and \<open>Update\<close>
  are embedded from the revision with the \<open>int64\<close> accumulator \<open>accumMillis\<close> and the
  package variable \<open>DeltaMillis\<close>.  \<open>SetFrame\<close> exists only in the other revision,
  whose struct has the further fields \<open>needsDraw\<close>, \<open>gpuFrame\<close> and a floating-point
  \<open>elapsedMillis\<close>; of these the record carries \<open>needsDraw\<close>, the one \<open>SetFrame\<close>
  writes.  The frame type is \<open>AniFrame\<close>, as in aseprite.go.

  An \<open>*Animation\<close> is a pointer and a Go map is a reference, so a \<open>Clone\<close> shares
  the frame table of its source.  The model keeps three heaps, each a list indexed by
  reference: the \<open>Animation\<close> structs, the \<open>map[string][]AniFrame\<close> objects and the
  \<open>map[string]Callback\<close> objects.  Allocation appends.  A map field holds
  \<open>None\<close> for a nil map.
\<close>

type_synonym ref = nat

record Animation =
  paused :: bool
  framesByTagName :: "ref option"
  currTag :: string
  currFrame :: int
  accumMillis :: "64 word"
  callbacks :: "ref option"
  Source :: "SpriteSheet option"
  needsDraw :: bool

text \<open>
  A \<open>Callback\<close> is a function value, possibly nil: an entry of a callback table is
  \<open>None\<close> for a stored nil and \<open>Some cb\<close> otherwise, with \<open>cb\<close> of a type \<open>'cb\<close> that
  stands for the function values of the program.
\<close>

record 'cb world =
  animations :: "Animation list"
  frameTables :: "tagmap list"
  callbackTables :: "(string \<rightharpoonup> 'cb option) list"
  DeltaMillis :: "64 word"

definition getAnimation :: "'cb world \<Rightarrow> ref \<Rightarrow> Animation option" where
  "getAnimation w p = (if p < length (animations w) then Some (animations w ! p) else None)"

definition putAnimation :: "'cb world \<Rightarrow> ref \<Rightarrow> Animation \<Rightarrow> 'cb world" where
  "putAnimation w p a = w\<lparr>animations := (animations w)[p := a]\<rparr>"

text \<open>
  Reading a nil map gives the zero value.  A reference beyond the heap does not arise
  in Go; it reads as the empty map.
\<close>

definition frameTable :: "'cb world \<Rightarrow> ref option \<Rightarrow> tagmap" where
  "frameTable w m =
     (case m of None \<Rightarrow> Map.empty
      | Some r \<Rightarrow> if r < length (frameTables w) then frameTables w ! r else Map.empty)"

definition callbackTable :: "'cb world \<Rightarrow> ref option \<Rightarrow> (string \<rightharpoonup> 'cb option)" where
  "callbackTable w m =
     (case m of None \<Rightarrow> Map.empty
      | Some r \<Rightarrow> if r < length (callbackTables w) then callbackTables w ! r else Map.empty)"

text \<open>\<open>a.framesByTagName[a.currTag]\<close> and \<open>a.callbacks[tag]\<close>.\<close>

definition currFrames :: "'cb world \<Rightarrow> Animation \<Rightarrow> AniFrame list" where
  "currFrames w a = at_tag (frameTable w (framesByTagName a)) (currTag a)"

definition callbackAt :: "'cb world \<Rightarrow> Animation \<Rightarrow> string \<Rightarrow> 'cb option" where
  "callbackAt w a tag =
     (case callbackTable w (callbacks a) tag of None \<Rightarrow> None | Some c \<Rightarrow> c)"

subsection \<open>Construction\<close>

definition NewAnimation :: "ref option \<Rightarrow> 'cb world \<Rightarrow> ref option \<times> 'cb world" where
  "NewAnimation anim w =
     (case anim of
        None \<Rightarrow> (None, w)
      | Some m \<Rightarrow>
          (Some (length (animations w)),
           w\<lparr>animations := animations w @
                [\<lparr>paused = False, framesByTagName = Some m, currTag = [], currFrame = 0,
                  accumMillis = 0, callbacks = Some (length (callbackTables w)),
                  Source = None, needsDraw = False\<rparr>],
              callbackTables := callbackTables w @ [Map.empty]\<rparr>))"



subsection \<open>Controls\<close>

definition Pause :: "ref \<Rightarrow> 'cb world \<Rightarrow> error + 'cb world" where
  "Pause p w =
     (case getAnimation w p of
        None \<Rightarrow> Inl NilDereference
      | Some a \<Rightarrow> Inr (putAnimation w p (a\<lparr>paused := True\<rparr>)))"

definition Resume :: "ref \<Rightarrow> 'cb world \<Rightarrow> error + 'cb world" where
  "Resume p w =
     (case getAnimation w p of
        None \<Rightarrow> Inl NilDereference
      | Some a \<Rightarrow> Inr (putAnimation w p (a\<lparr>paused := False\<rparr>)))"

definition Toggle :: "ref \<Rightarrow> 'cb world \<Rightarrow> error + 'cb world" where
  "Toggle p w =
     (case getAnimation w p of
        None \<Rightarrow> Inl NilDereference
      | Some a \<Rightarrow> Inr (putAnimation w p (a\<lparr>paused := \<not> paused a\<rparr>)))"




text \<open>
  \<open>SetFrame\<close> returns an \<open>error\<close> value (\<open>None\<close> for nil) next to the state it leaves.
\<close>

definition SetFrame :: "ref \<Rightarrow> int \<Rightarrow> 'cb world \<Rightarrow> error + error option \<times> 'cb world" where
  "SetFrame p idx w =
     (case getAnimation w p of
        None \<Rightarrow> Inl NilDereference
      | Some a \<Rightarrow>
          if idx < 0 \<or> int (length (currFrames w a)) \<le> idx
          then Inr (Some FrameIndexOutOfBounds, w)
          else Inr (None, putAnimation w p (a\<lparr>needsDraw := True, currFrame := idx\<rparr>)))"

subsection \<open>Update\<close>

text \<open>
  What a call of \<open>Update\<close> does is observed through a trace: \<open>Advanced tag idx cb\<close>
  after each execution of line \<open>a.currFrame = (a.currFrame + 1) % len(...)\<close>, with the
  current tag, the new index and the entry \<open>a.callbacks[a.currTag]\<close> at that moment,
  and \<open>Fired tag cb\<close> at each call \<open>a.callbacks[a.currTag](a)\<close>.
\<close>

datatype 'cb event = Advanced string int "'cb option" | Fired string 'cb

text \<open>
  A callback is run by \<open>run cb p w\<close>, the world it leaves when called with the
  pointer \<open>p\<close> in the world \<open>w\<close>; callbacks that panic or do not return are outside
  the model.  The loop may not terminate: it is a partial function, \<open>None\<close> when it
  runs forever.  Every iteration reads the animation, its tag's slice and its length
  again from the world, as the source does; \<open>%\<close> has positive operands here, where
  it agrees with \<open>mod\<close>.
\<close>

partial_function (option) Update_loop ::
  "('cb \<Rightarrow> ref \<Rightarrow> 'cb world \<Rightarrow> 'cb world) \<Rightarrow> ref \<Rightarrow> 'cb world \<Rightarrow> 'cb event list
     \<Rightarrow> (error + 'cb world \<times> 'cb event list) option" where
  "Update_loop run p w tr =
     (case getAnimation w p of
        None \<Rightarrow> Some (Inl NilDereference)
      | Some a \<Rightarrow>
          if currFrame a < 0 \<or> int (length (currFrames w a)) \<le> currFrame a
          then Some (Inl IndexOutOfRange)
          else if DurationMillis (currFrames w a ! nat (currFrame a)) <s accumMillis a
          then
            let a1 = a\<lparr>accumMillis :=
                        accumMillis a - DurationMillis (currFrames w a ! nat (currFrame a))\<rparr>;
                a2 = a1\<lparr>currFrame := (currFrame a1 + 1) mod int (length (currFrames w a1))\<rparr>;
                w2 = putAnimation w p a2;
                cb = callbackAt w2 a2 (currTag a2);
                tr2 = tr @ [Advanced (currTag a2) (currFrame a2) cb]
            in if currFrame a2 \<noteq> 0 \<or> cb = None
               then Update_loop run p w2 tr2
               else Update_loop run p (run (the cb) p w2) (tr2 @ [Fired (currTag a2) (the cb)])
          else Some (Inr (w, tr)))"

definition Update ::
  "('cb \<Rightarrow> ref \<Rightarrow> 'cb world \<Rightarrow> 'cb world) \<Rightarrow> ref \<Rightarrow> 'cb world
     \<Rightarrow> (error + 'cb world \<times> 'cb event list) option" where
  "Update run p w =
     (case getAnimation w p of
        None \<Rightarrow> Some (Inl NilDereference)
      | Some a \<Rightarrow>
          if paused a then Some (Inr (w, []))
          else Update_loop run p
                 (putAnimation w p (a\<lparr>accumMillis := accumMillis a + DeltaMillis w\<rparr>)) [])"

subsection \<open>LoadAnimation\<close>

text \<open>
  \<open>LoadSpriteSheet\<close> reads files; its result is an argument here.  The table the
  loader returns was made by \<open>make\<close>, so it is a new object of the heap.
\<close>

definition LoadAnimation ::
  "error + SpriteSheet \<Rightarrow> 'cb world \<Rightarrow> error + ref \<times> 'cb world" where
  "LoadAnimation loaded w =
     (case loaded of
        Inl err \<Rightarrow> Inl err
      | Inr sheet \<Rightarrow>
          (case (if length (FrameTags (Meta sheet)) = 0 then loadNoTags sheet
                 else loadWithTags sheet) of
             Inl err \<Rightarrow> Inl err
           | Inr byTagName \<Rightarrow>
               (case NewAnimation (Some (length (frameTables w)))
                       (w\<lparr>frameTables := frameTables w @ [byTagName]\<rparr>) of
                  (None, w1) \<Rightarrow> Inl NilDereference
                | (Some q, w1) \<Rightarrow>
                    (case getAnimation w1 q of
                       None \<Rightarrow> Inl NilDereference
                     | Some a \<Rightarrow> Inr (q, putAnimation w1 q (a\<lparr>Source := Some sheet\<rparr>))))))"

subsection \<open>The loop of Update, piece by piece\<close>

text \<open>
  The pieces of one iteration, for stating what the loop does: the loop test, the two
  assignments of the body, and the callback the \<open>if\<close> of the body lets through.
\<close>

definition loop_guard :: "'cb world \<Rightarrow> ref \<Rightarrow> error + bool" where
  "loop_guard w p =
     (case getAnimation w p of
        None \<Rightarrow> Inl NilDereference
      | Some a \<Rightarrow>
          if currFrame a < 0 \<or> int (length (currFrames w a)) \<le> currFrame a
          then Inl IndexOutOfRange
          else Inr (DurationMillis (currFrames w a ! nat (currFrame a)) <s accumMillis a))"

definition advance_frame :: "'cb world \<Rightarrow> ref \<Rightarrow> 'cb world" where
  "advance_frame w p =
     (case getAnimation w p of
        None \<Rightarrow> w
      | Some a \<Rightarrow>
          putAnimation w p
            (a\<lparr>accumMillis :=
                 accumMillis a - DurationMillis (currFrames w a ! nat (currFrame a)),
               currFrame := (currFrame a + 1) mod int (length (currFrames w a))\<rparr>))"

definition pending_callback :: "'cb world \<Rightarrow> ref \<Rightarrow> 'cb option" where
  "pending_callback w p =
     (case getAnimation w p of
        None \<Rightarrow> None
      | Some a \<Rightarrow> if currFrame a \<noteq> 0 then None else callbackAt w a (currTag a))"

definition advanced_event :: "'cb world \<Rightarrow> ref \<Rightarrow> 'cb event list" where
  "advanced_event w p =
     (case getAnimation w p of
        None \<Rightarrow> []
      | Some a \<Rightarrow> [Advanced (currTag a) (currFrame a) (callbackAt w a (currTag a))])"

definition fired_event :: "'cb world \<Rightarrow> ref \<Rightarrow> 'cb event list" where
  "fired_event w p =
     (case (getAnimation w p, pending_callback w p) of
        (Some a, Some cb) \<Rightarrow> [Fired (currTag a) cb]
      | _ \<Rightarrow> [])"

definition after_callback ::
  "('cb \<Rightarrow> ref \<Rightarrow> 'cb world \<Rightarrow> 'cb world) \<Rightarrow> ref \<Rightarrow> 'cb world \<Rightarrow> 'cb world" where
  "after_callback run p w = (case pending_callback w p of None \<Rightarrow> w | Some cb \<Rightarrow> run cb p w)"

text \<open>
  \<open>iterations run p w es w'\<close>: from \<open>w\<close>, some number of iterations of the loop, each
  entered with a true loop test, lead to \<open>w'\<close> and emit the events \<open>es\<close>.
\<close>

inductive iterations ::
  "('cb \<Rightarrow> ref \<Rightarrow> 'cb world \<Rightarrow> 'cb world) \<Rightarrow> ref \<Rightarrow> 'cb world \<Rightarrow> 'cb event list
     \<Rightarrow> 'cb world \<Rightarrow> bool"
  for run :: "'cb \<Rightarrow> ref \<Rightarrow> 'cb world \<Rightarrow> 'cb world" and p :: ref where
  none: "iterations run p w [] w"
| more: "loop_guard w p = Inr True \<Longrightarrow>
         iterations run p (after_callback run p (advance_frame w p)) es w' \<Longrightarrow>
         iterations run p w
           (advanced_event (advance_frame w p) p @ fired_event (advance_frame w p) p @ es) w'"

text \<open>What a trace says about callbacks: every call follows at once an advance to index 0
  under a tag with a callback, and every such advance is followed by that call.\<close>

definition accumOf :: "'cb world \<Rightarrow> ref \<Rightarrow> 64 word" where
  "accumOf w p = (case getAnimation w p of None \<Rightarrow> 0 | Some a \<Rightarrow> accumMillis a)"




subsection \<open>Hypotheses on animations and callbacks\<close>

text \<open>
  \<open>valid w p\<close>: the animation at \<open>p\<close> has a current tag with a sequence in which its
  frame index lies, and every frame of that sequence has a positive duration.
\<close>

definition valid :: "'cb world \<Rightarrow> ref \<Rightarrow> bool" where
  "valid w p =
     (case getAnimation w p of
        None \<Rightarrow> False
      | Some a \<Rightarrow>
          0 \<le> currFrame a \<and> currFrame a < int (length (currFrames w a)) \<and>
          (\<forall>f \<in> set (currFrames w a). 0 <s DurationMillis f))"

text \<open>
  Callbacks that keep the animation valid and do not touch its accumulator: through
  the exported methods a callback can change the accumulator only by calling
  \<open>Update\<close> again.
\<close>

definition callbacks_keep :: "('cb \<Rightarrow> ref \<Rightarrow> 'cb world \<Rightarrow> 'cb world) \<Rightarrow> ref \<Rightarrow> bool" where
  "callbacks_keep run p =
     (\<forall>cb w. valid w p \<longrightarrow> valid (run cb p w) p \<and> accumOf (run cb p w) p = accumOf w p)"


subsection \<open>Callbacks that change the tag\<close>








section \<open>Concrete inputs\<close>

text \<open>
  A sheet of four frames of 16 by 16 pixels in a row, on an image of 64 by 16 pixels,
  with the tags given.
\<close>

definition mkFrame :: "int \<Rightarrow> int \<Rightarrow> Frame option" where
  "mkFrame x d = Some \<lparr>Frame = \<lparr>X = x, Y = 0, W = 16, H = 16\<rparr>, Duration = d\<rparr>"

definition sheet4 :: "FrameTag list \<Rightarrow> SpriteSheet" where
  "sheet4 tags =
     \<lparr>Frames = [mkFrame 0 100, mkFrame 16 100, mkFrame 32 100, mkFrame 48 100],
      Meta = \<lparr>Version = ''1.3'', FrameTags = tags\<rparr>,
      Image = \<lparr>Handle = 0, Width = 64, Height = 16\<rparr>\<rparr>"

text \<open>The original frame indices of the sequence \<open>loadWithTags\<close> builds for a tag.\<close>

definition tagged :: "SpriteSheet \<Rightarrow> string \<Rightarrow> int list" where
  "tagged sheet name =
     (case loadWithTags sheet of Inl e \<Rightarrow> [] | Inr m \<Rightarrow> map FrameIdx (at_tag m name))"

text \<open>A callback that changes nothing, such as one that counts or logs.\<close>

definition no_effect :: "'cb \<Rightarrow> ref \<Rightarrow> 'cb world \<Rightarrow> 'cb world" where
  "no_effect cb p w = w"

text \<open>
  A world of one animation at reference 0, with one frame table and one callback
  table, in a given state.
\<close>

definition mkAni :: "int \<Rightarrow> 64 word \<Rightarrow> AniFrame" where
  "mkAni i d = \<lparr>FrameIdx = i, Image = SubImage 0 \<lparr>X = 16 * i, Y = 0, W = 16, H = 16\<rparr>,
               DurationMillis = d\<rparr>"

definition world1 ::
  "tagmap \<Rightarrow> (string \<rightharpoonup> 'cb option) \<Rightarrow> string \<Rightarrow> int \<Rightarrow> 64 word \<Rightarrow> 64 word \<Rightarrow> 'cb world" where
  "world1 table cbs tag idx accum delta =
     \<lparr>animations = [\<lparr>paused = False, framesByTagName = Some 0, currTag = tag,
                      currFrame = idx, accumMillis = accum, callbacks = Some 0,
                      Source = None, needsDraw = False\<rparr>],
      frameTables = [table], callbackTables = [cbs], DeltaMillis = delta\<rparr>"

section \<open>The sequence builder\<close>

lemma reverse_loop_length [simp]: "length (reverse_loop i xs) = length xs"
  by (induction i xs rule: reverse_loop.induct) (subst reverse_loop.simps, simp)

text \<open>After the loop has run from \<open>i\<close>, the positions \<open>i\<close> to \<open>n - i\<close> are mirrored.\<close>

lemma reverse_loop_nth:
  "k < length xs \<Longrightarrow> reverse_loop i xs ! k =
     (if i \<le> k \<and> k \<le> length xs - 1 - i then xs ! (length xs - 1 - k) else xs ! k)"
proof (induction i xs arbitrary: k rule: reverse_loop.induct)
  case (1 i frames)
  show ?case
  proof (cases "i < length frames div 2")
    case True
    let ?fs = "frames[i := frames ! (length frames - 1 - i), length frames - 1 - i := frames ! i]"
    have step: "reverse_loop i frames = reverse_loop (i + 1) ?fs"
      using True by (subst reverse_loop.simps) simp
    have ih: "reverse_loop (i + 1) ?fs ! k =
       (if i + 1 \<le> k \<and> k \<le> length ?fs - 1 - (i + 1)
        then ?fs ! (length ?fs - 1 - k) else ?fs ! k)"
      using 1(1)[OF True, of k] 1(2) by simp
    show ?thesis
      unfolding step ih using True 1(2)
      by (auto simp: nth_list_update)
  next
    case False
    have stop: "reverse_loop i frames = frames"
      using False by (subst reverse_loop.simps) simp
    have "i \<le> k \<and> k \<le> length frames - 1 - i \<Longrightarrow> length frames - 1 - k = k"
      using False 1(2) by linarith
    then show ?thesis unfolding stop by auto
  qed
qed

lemma reverse_eq: "reverse xs = rev xs"
  by (rule nth_equalityI) (auto simp: reverse_def reverse_loop_nth rev_nth)

lemma pingpong_loop_append:
  "i < length xs \<Longrightarrow> pingpong_loop i (xs @ ys) = xs @ ys @ rev (take i (tl xs))"
proof (induction i arbitrary: ys)
  case 0
  then show ?case by simp
next
  case (Suc i)
  then show ?case
    by (simp add: nth_append take_Suc_conv_app_nth nth_tl)
qed

lemma pingpong_eq: "pingpong xs = xs @ rev (butlast (tl xs))"
proof (cases "length xs < 2")
  case True
  then have "butlast (tl xs) = []" by (cases xs) (auto split: if_splits)
  with True show ?thesis by (simp add: pingpong_def)
next
  case False
  then have "length xs - 2 < length xs" by simp
  from pingpong_loop_append[OF this, of "[]"] show ?thesis
    by (simp add: pingpong_def butlast_conv_take numeral_2_eq_2)
qed

text \<open>
  What the code computes: on frames \<open>[a, b, c, d]\<close>, \<open>reverse\<close> gives \<open>[d, c, b, a]\<close>,
  \<open>pingpong\<close> gives \<open>[a, b, c, d, c, b]\<close>, and the composition \<open>reverse (pingpong frames)\<close>
  of the case \<open>"pingpong_reverse"\<close> gives \<open>[b, c, d, c, b, a]\<close>.  In general ping-pong
  appends the reversed interior to the frames, and the direction switch of
  \<open>loadWithTags\<close> replaces a tag's sequence by its reversal, its ping-pong expansion
  or the reversal of its ping-pong expansion.
\<close>

lemma direction_transforms:
  "reverse [a, b, c, d] = [d, c, b, a] \<and>
   pingpong [a, b, c, d] = [a, b, c, d, c, b] \<and>
   reverse (pingpong [a, b, c, d]) = [b, c, d, c, b, a] \<and>
   pingpong fs = fs @ rev (butlast (tl fs)) \<and>
   at_tag (applyDirection (tag\<lparr>Direction := ''reverse''\<rparr>) m) (Name tag)
     = rev (at_tag m (Name tag)) \<and>
   at_tag (applyDirection (tag\<lparr>Direction := ''pingpong''\<rparr>) m) (Name tag)
     = at_tag m (Name tag) @ rev (butlast (tl (at_tag m (Name tag)))) \<and>
   at_tag (applyDirection (tag\<lparr>Direction := ''pingpong_reverse''\<rparr>) m) (Name tag)
     = rev (at_tag m (Name tag) @ rev (butlast (tl (at_tag m (Name tag)))))"
  by (simp add: reverse_eq pingpong_eq applyDirection_def at_tag_def)

text \<open>
  Reversing a ping-pong expansion only rotates it: the loop played is the forward
  ping-pong loop, entered at its second frame.
\<close>

lemma reverse_pingpong_rotate1: "reverse (pingpong fs) = rotate1 (pingpong fs)"
proof (cases fs)
  case Nil
  then show ?thesis by (simp add: reverse_eq pingpong_eq)
next
  case (Cons x xs)
  have "xs @ rev (butlast xs) = butlast xs @ rev xs"
    by (cases xs rule: rev_cases) simp_all
  with Cons show ?thesis by (simp add: reverse_eq pingpong_eq)
qed

text \<open>
  Claim C2 holds of the code for \<open>"pingpong"\<close> and \<open>"reverse"\<close>, and the code breaks it
  for \<open>"pingpong_reverse"\<close>.  On a tag over frames 0 to 3 the loader builds 0, 1, 2, 3,
  2, 1 for \<open>"pingpong"\<close> and 3, 2, 1, 0 for \<open>"reverse"\<close>, as the claim says; for
  \<open>"pingpong_reverse"\<close> it builds 1, 2, 3, 2, 1, 0, where the claim says 3, 2, 1, 0,
  1, 2, the ping-pong expansion of the reversed frames.  The case applies the two
  functions in the other order, \<open>reverse (pingpong frames)\<close>, which by
  \<open>reverse_pingpong_rotate1\<close> is the forward loop started on the tag's second frame,
  while the sibling case \<open>"reverse"\<close> starts on the last.
\<close>

theorem pingpong_reverse_starts_on_second_frame:
  "tagged (sheet4 [\<lparr>Name = ''walk'', From = 0, To = 3, Direction = ''pingpong''\<rparr>])
      ''walk'' = [0, 1, 2, 3, 2, 1] \<and>
   tagged (sheet4 [\<lparr>Name = ''walk'', From = 0, To = 3, Direction = ''reverse''\<rparr>])
      ''walk'' = [3, 2, 1, 0] \<and>
   tagged (sheet4 [\<lparr>Name = ''walk'', From = 0, To = 3, Direction = ''pingpong_reverse''\<rparr>])
      ''walk'' = [1, 2, 3, 2, 1, 0] \<and>
   tagged (sheet4 [\<lparr>Name = ''walk'', From = 0, To = 3, Direction = ''pingpong_reverse''\<rparr>])
      ''walk'' \<noteq> [3, 2, 1, 0, 1, 2] \<and>
   pingpong (reverse [3, 2, 1, 0 :: int]) = [0, 1, 2, 3, 2, 1] \<and>
   pingpong (reverse [0, 1, 2, 3 :: int]) = [3, 2, 1, 0, 1, 2]"
  by (simp add: tagged_def loadWithTags_def loadNoTags_def sheet4_def mkFrame_def
      loadTag_loop.simps at_tag_def applyDirection_def reverse_eq pingpong_eq
      NewImageFromSubImage_def subImage_empty_def ImageRect_def go_int_def)

section \<open>Ingestion\<close>

lemma loadNoTags_loop_ok:
  "\<forall>fo \<in> set fs. (case fo of None \<Rightarrow> False
       | Some frame \<Rightarrow> \<not> subImage_empty img (Frame frame)) \<Longrightarrow>
   \<exists>m. loadNoTags_loop img idx fs byTagName = Inr m"
  by (induction img idx fs byTagName rule: loadNoTags_loop.induct)
     (auto simp: NewImageFromSubImage_def)

lemma loadNoTags_loop_panics:
  "loadNoTags_loop img idx fs byTagName = Inl e \<Longrightarrow> is_panic e"
  by (induction img idx fs byTagName rule: loadNoTags_loop.induct)
     (auto simp: NewImageFromSubImage_def split: if_splits)

text \<open>
  One iteration of the inner loop on a frame that can be cut out: the loop goes on
  at \<open>i + 1\<close> with some cache and the tag's sequence extended.
\<close>

lemma loadTag_loop_step:
  assumes "frames_ok sheet" and "i \<le> To tag"
    and "\<not> (i < 0 \<or> int (length (Frames sheet)) \<le> i)"
  shows "\<exists>st'. loadTag_loop sheet tag i (imgCache, byTagName)
                  = loadTag_loop sheet tag (i + 1) st'"
proof -
  from assms(3) have "nat i < length (Frames sheet)" by auto
  then have mem: "Frames sheet ! nat i \<in> set (Frames sheet)" by (rule nth_mem)
  with assms(1) obtain frame where fr: "Frames sheet ! nat i = Some frame"
    and ok: "\<not> subImage_empty (SpriteSheet.Image sheet) (Frame frame)"
    by (cases "Frames sheet ! nat i") (auto simp: frames_ok_def)
  show ?thesis
    using assms(2,3) fr ok
    by (subst loadTag_loop.simps)
       (auto simp: NewImageFromSubImage_def split: option.splits)
qed

text \<open>
  On such a sheet the inner loop started at \<open>i\<close> panics exactly when it still has an
  iteration to run and that iteration, or a later one, is out of range.
\<close>

lemma loadTag_loop_result:
  "frames_ok sheet \<Longrightarrow>
   (if i \<le> To tag \<and> (i < 0 \<or> int (length (Frames sheet)) \<le> To tag)
    then loadTag_loop sheet tag i st = Inl IndexOutOfRange
    else \<exists>st'. loadTag_loop sheet tag i st = Inr st')"
proof (induction "nat (To tag + 1 - i)" arbitrary: i st rule: less_induct)
  case less
  obtain imgCache byTagName where st: "st = (imgCache, byTagName)" by (cases st)
  show ?case
  proof (cases "i \<le> To tag")
    case False
    then show ?thesis unfolding st by (subst loadTag_loop.simps) simp
  next
    case le: True
    show ?thesis
    proof (cases "i < 0 \<or> int (length (Frames sheet)) \<le> i")
      case True
      with le show ?thesis unfolding st by (subst loadTag_loop.simps) auto
    next
      case False
      from loadTag_loop_step[OF less.prems le False] obtain st' where
        step: "loadTag_loop sheet tag i (imgCache, byTagName)
                 = loadTag_loop sheet tag (i + 1) st'" by blast
      from le have "nat (To tag + 1 - (i + 1)) < nat (To tag + 1 - i)" by simp
      from less.hyps[OF this less.prems, of st'] le False show ?thesis
        unfolding st step by auto
    qed
  qed
qed

lemma loadTag_loop_panics:
  "loadTag_loop sheet tag i st = Inl e \<Longrightarrow> is_panic e"
proof (induction "nat (To tag + 1 - i)" arbitrary: i st rule: less_induct)
  case less
  obtain imgCache byTagName where st: "st = (imgCache, byTagName)" by (cases st)
  have dec: "i \<le> To tag \<Longrightarrow> nat (To tag + 1 - (i + 1)) < nat (To tag + 1 - i)" by simp
  from less.prems show ?case
    unfolding st
    by (subst (asm) loadTag_loop.simps)
       (auto simp: NewImageFromSubImage_def dest: less.hyps[OF dec]
             split: if_splits option.splits sum.splits)
qed

lemma loadTags_loop_result:
  "frames_ok sheet \<Longrightarrow>
   (if \<exists>tag \<in> set tags. tag_out_of_range sheet tag
    then loadTags_loop sheet tags st = Inl IndexOutOfRange
    else \<exists>m. loadTags_loop sheet tags st = Inr m)"
proof (induction tags arbitrary: st)
  case Nil
  then show ?case by (cases st) simp
next
  case (Cons tag tags)
  obtain c m where st: "st = (c, m)" by (cases st)
  show ?case
  proof (cases "tag_out_of_range sheet tag")
    case True
    then have "loadTag_loop sheet tag (From tag) (c, m) = Inl IndexOutOfRange"
      using loadTag_loop_result[OF Cons.prems, of "From tag" tag "(c, m)"]
      by (simp add: tag_out_of_range_def)
    with True show ?thesis by (simp add: st)
  next
    case False
    then obtain c' m' where "loadTag_loop sheet tag (From tag) (c, m) = Inr (c', m')"
      using loadTag_loop_result[OF Cons.prems, of "From tag" tag "(c, m)"]
      by (auto simp: tag_out_of_range_def split: if_splits)
    with False Cons.IH[OF Cons.prems, of "(c', applyDirection tag m')"] show ?thesis
      by (simp add: st)
  qed
qed

lemma loadTags_loop_panics:
  "loadTags_loop sheet tags st = Inl e \<Longrightarrow> is_panic e"
proof (induction tags arbitrary: st)
  case Nil
  then show ?case by (cases st) simp
next
  case (Cons tag tags)
  obtain c m where st: "st = (c, m)" by (cases st)
  from Cons.prems show ?case
    unfolding st
    by (auto split: sum.splits dest: loadTag_loop_panics Cons.IH)
qed

lemma loadWithTags_result:
  assumes "frames_ok sheet"
  shows "if \<exists>tag \<in> set (FrameTags (Meta sheet)). tag_out_of_range sheet tag
    then loadWithTags sheet = Inl IndexOutOfRange
    else \<exists>m. loadWithTags sheet = Inr m"
proof -
  obtain m0 where m0: "loadNoTags sheet = Inr m0"
    using assms loadNoTags_loop_ok[of "Frames sheet" "SpriteSheet.Image sheet" 0 Map.empty]
    by (auto simp: loadNoTags_def frames_ok_def)
  show ?thesis
    using loadTags_loop_result[OF assms, of "FrameTags (Meta sheet)" "(Map.empty, m0)"]
    by (simp add: loadWithTags_def m0)
qed

lemma loadWithTags_panics: "loadWithTags sheet = Inl e \<Longrightarrow> is_panic e"
  by (auto simp: loadWithTags_def loadNoTags_def split: sum.splits
           dest: loadNoTags_loop_panics loadTags_loop_panics)

text \<open>
  Claim C4, as the spec states it, fails: a tag from 2 to 4 on a sheet of four frames
  makes \<open>loadWithTags\<close> panic with an index out of range, which is no returned
  error; and a tag from 7 to 5, out of bounds at both ends, makes nothing fail: the
  table is built, with the empty tag holding all four frames.
\<close>

theorem out_of_range_tag_counterexample:
  "loadWithTags (sheet4 [\<lparr>Name = ''walk'', From = 2, To = 4, Direction = ''forward''\<rparr>])
     = Inl IndexOutOfRange \<and>
   is_panic IndexOutOfRange \<and>
   tagged (sheet4 [\<lparr>Name = ''walk'', From = 7, To = 5, Direction = ''forward''\<rparr>]) []
     = [0, 1, 2, 3]"
  by (simp add: tagged_def loadWithTags_def loadNoTags_def sheet4_def mkFrame_def
      loadTag_loop.simps at_tag_def applyDirection_def
      NewImageFromSubImage_def subImage_empty_def ImageRect_def go_int_def)

text \<open>
  Claim C4, amended: the tag ranges are not validated, and \<open>loadWithTags\<close> returns no
  error value at all: whenever it fails, it panics.  On a sheet whose frames can all be
  cut out (no nil frame, every frame rectangle with a pixel of the sheet's image), it
  panics with an index out of range exactly when some declared tag has \<open>from \<le> to\<close>
  and \<open>from < 0\<close> or \<open>to\<close> at or beyond the number of frames, and otherwise it returns
  a table.  When it panics so does \<open>LoadAnimation\<close>, and no table, partial or whole,
  is produced.
\<close>

theorem out_of_range_tag_panics:
  "(frames_ok sheet \<longrightarrow>
      (loadWithTags sheet = Inl IndexOutOfRange
         \<longleftrightarrow> (\<exists>tag \<in> set (FrameTags (Meta sheet)). tag_out_of_range sheet tag)) \<and>
      ((\<exists>m. loadWithTags sheet = Inr m)
         \<longleftrightarrow> \<not> (\<exists>tag \<in> set (FrameTags (Meta sheet)). tag_out_of_range sheet tag)) \<and>
      ((\<exists>tag \<in> set (FrameTags (Meta sheet)). tag_out_of_range sheet tag)
         \<longrightarrow> LoadAnimation (Inr sheet) w = Inl IndexOutOfRange)) \<and>
   (loadWithTags sheet = Inl e \<longrightarrow> is_panic e)"
proof (rule conjI)
  show "loadWithTags sheet = Inl e \<longrightarrow> is_panic e"
    by (auto dest: loadWithTags_panics)
next
  show "frames_ok sheet \<longrightarrow>
      (loadWithTags sheet = Inl IndexOutOfRange
         \<longleftrightarrow> (\<exists>tag \<in> set (FrameTags (Meta sheet)). tag_out_of_range sheet tag)) \<and>
      ((\<exists>m. loadWithTags sheet = Inr m)
         \<longleftrightarrow> \<not> (\<exists>tag \<in> set (FrameTags (Meta sheet)). tag_out_of_range sheet tag)) \<and>
      ((\<exists>tag \<in> set (FrameTags (Meta sheet)). tag_out_of_range sheet tag)
         \<longrightarrow> LoadAnimation (Inr sheet) w = Inl IndexOutOfRange)"
  proof (rule impI)
    assume ok: "frames_ok sheet"
    show "(loadWithTags sheet = Inl IndexOutOfRange
         \<longleftrightarrow> (\<exists>tag \<in> set (FrameTags (Meta sheet)). tag_out_of_range sheet tag)) \<and>
      ((\<exists>m. loadWithTags sheet = Inr m)
         \<longleftrightarrow> \<not> (\<exists>tag \<in> set (FrameTags (Meta sheet)). tag_out_of_range sheet tag)) \<and>
      ((\<exists>tag \<in> set (FrameTags (Meta sheet)). tag_out_of_range sheet tag)
         \<longrightarrow> LoadAnimation (Inr sheet) w = Inl IndexOutOfRange)"
    proof (cases "\<exists>tag \<in> set (FrameTags (Meta sheet)). tag_out_of_range sheet tag")
      case True
      then have "loadWithTags sheet = Inl IndexOutOfRange"
        using loadWithTags_result[OF ok] by simp
      moreover from True have "FrameTags (Meta sheet) \<noteq> []" by auto
      ultimately show ?thesis using True by (simp add: LoadAnimation_def)
    next
      case False
      then obtain m where "loadWithTags sheet = Inr m"
        using loadWithTags_result[OF ok] by auto
      with False show ?thesis by simp
    qed
  qed
qed

theorem out_of_range_tag_panics_witness:
  "frames_ok (sheet4 [\<lparr>Name = ''walk'', From = 2, To = 4, Direction = ''forward''\<rparr>]) \<and>
   tag_out_of_range (sheet4 [\<lparr>Name = ''walk'', From = 2, To = 4, Direction = ''forward''\<rparr>])
      \<lparr>Name = ''walk'', From = 2, To = 4, Direction = ''forward''\<rparr> \<and>
   loadWithTags (sheet4 [\<lparr>Name = ''walk'', From = 2, To = 4, Direction = ''forward''\<rparr>])
      = Inl IndexOutOfRange \<and>
   is_panic IndexOutOfRange \<and>
   LoadAnimation (Inr (sheet4 [\<lparr>Name = ''walk'', From = 2, To = 4, Direction = ''forward''\<rparr>]))
      \<lparr>animations = [], frameTables = [],
       callbackTables = ([] :: (string \<rightharpoonup> unit option) list), DeltaMillis = 0\<rparr>
      = Inl IndexOutOfRange"
proof -
  let ?s = "sheet4 [\<lparr>Name = ''walk'', From = 2, To = 4, Direction = ''forward''\<rparr>]"
  have h: "frames_ok ?s"
    by (simp add: frames_ok_def sheet4_def mkFrame_def subImage_empty_def ImageRect_def
        go_int_def)
  have t: "\<exists>tag \<in> set (FrameTags (Meta ?s)). tag_out_of_range ?s tag"
    by (simp add: sheet4_def tag_out_of_range_def)
  show ?thesis
    using h t out_of_range_tag_panics[of ?s "\<lparr>animations = [], frameTables = [],
       callbackTables = ([] :: (string \<rightharpoonup> unit option) list), DeltaMillis = 0\<rparr>"
       IndexOutOfRange]
    by (simp add: sheet4_def tag_out_of_range_def)
qed

section \<open>The loop of Update\<close>

lemma sint_sub_pos:
  fixes a d :: "64 word"
  assumes "0 <s d" "d <s a"
  shows "sint (a - d) = sint a - sint d"
proof -
  have d: "0 < sint d" using assms(1) by (simp add: word_sless_alt)
  have a: "sint d < sint a" using assms(2) by (simp add: word_sless_alt)
  have u: "sint a < 2 ^ 63" using sint_lt[of a] by simp
  have "sint (a - d) = signed_take_bit 63 (sint a - sint d)"
    by (simp add: sint_word_ariths)
  also have "\<dots> = sint a - sint d"
    using d a u by (intro signed_take_bit_int_eq_self) auto
  finally show ?thesis .
qed

lemma sint_add_nonneg:
  fixes a d :: "64 word"
  assumes "0 \<le>s a" "0 \<le>s d" "sint a + sint d < 2 ^ 63"
  shows "sint (a + d) = sint a + sint d"
proof -
  have d: "0 \<le> sint d" using assms(2) by (simp add: word_sle_eq)
  have a: "0 \<le> sint a" using assms(1) by (simp add: word_sle_eq)
  have "sint (a + d) = signed_take_bit 63 (sint a + sint d)"
    by (simp add: sint_word_ariths)
  also have "\<dots> = sint a + sint d"
    using d a assms(3) by (intro signed_take_bit_int_eq_self) auto
  finally show ?thesis .
qed

lemma getAnimation_putAnimation:
  "getAnimation (putAnimation w p a) q =
     (if q = p \<and> p < length (animations w) then Some a else getAnimation w q)"
  by (simp add: getAnimation_def putAnimation_def)

text \<open>The body of the loop, for any function in place of the recursive call.\<close>

lemma loop_body_pieces:
  "(case getAnimation w p of
        None \<Rightarrow> Some (Inl NilDereference)
      | Some a \<Rightarrow>
          if currFrame a < 0 \<or> int (length (currFrames w a)) \<le> currFrame a
          then Some (Inl IndexOutOfRange)
          else if DurationMillis (currFrames w a ! nat (currFrame a)) <s accumMillis a
          then
            let a1 = a\<lparr>accumMillis :=
                        accumMillis a - DurationMillis (currFrames w a ! nat (currFrame a))\<rparr>;
                a2 = a1\<lparr>currFrame := (currFrame a1 + 1) mod int (length (currFrames w a1))\<rparr>;
                w2 = putAnimation w p a2;
                cb = callbackAt w2 a2 (currTag a2);
                tr2 = tr @ [Advanced (currTag a2) (currFrame a2) cb]
            in if currFrame a2 \<noteq> 0 \<or> cb = None
               then f run p w2 tr2
               else f run p (run (the cb) p w2) (tr2 @ [Fired (currTag a2) (the cb)])
          else Some (Inr (w, tr))) =
     (case loop_guard w p of
        Inl e \<Rightarrow> Some (Inl e)
      | Inr False \<Rightarrow> Some (Inr (w, tr))
      | Inr True \<Rightarrow>
          f run p (after_callback run p (advance_frame w p))
            (tr @ advanced_event (advance_frame w p) p @ fired_event (advance_frame w p) p))"
  by (auto simp: loop_guard_def advance_frame_def after_callback_def pending_callback_def
      advanced_event_def fired_event_def Let_def getAnimation_def putAnimation_def
      currFrames_def callbackAt_def frameTable_def callbackTable_def
      split: option.splits)

lemma Update_loop_unfold:
  "Update_loop run p w tr =
     (case loop_guard w p of
        Inl e \<Rightarrow> Some (Inl e)
      | Inr False \<Rightarrow> Some (Inr (w, tr))
      | Inr True \<Rightarrow>
          Update_loop run p (after_callback run p (advance_frame w p))
            (tr @ advanced_event (advance_frame w p) p @ fired_event (advance_frame w p) p))"
  by (subst Update_loop.simps) (rule loop_body_pieces)

text \<open>A result of the loop comes from finitely many iterations.\<close>

lemma Update_loop_iterations:
  fixes run :: "'cb \<Rightarrow> ref \<Rightarrow> 'cb world \<Rightarrow> 'cb world"
  assumes "Update_loop run p w tr = Some r"
  shows "\<exists>w' es. iterations run p w es w' \<and>
           (case loop_guard w' p of
              Inl e \<Rightarrow> r = Inl e
            | Inr b \<Rightarrow> \<not> b \<and> r = Inr (w', tr @ es))"
proof -
  let ?P = "\<lambda>(run :: 'cb \<Rightarrow> ref \<Rightarrow> 'cb world \<Rightarrow> 'cb world) p w tr r.
     \<exists>w' es. iterations run p w es w' \<and>
           (case loop_guard w' p of
              Inl e \<Rightarrow> r = Inl e
            | Inr b \<Rightarrow> \<not> b \<and> r = Inr (w', tr @ es))"
  have "?P run p w tr r"
  proof (rule Update_loop.raw_induct[where P = ?P, OF _ assms])
    fix f and run :: "'cb \<Rightarrow> ref \<Rightarrow> 'cb world \<Rightarrow> 'cb world" and p w tr r
    assume IH: "\<And>run p w tr r. f run p w tr = Some r \<Longrightarrow> ?P run p w tr r"
    assume "(case getAnimation w p of
        None \<Rightarrow> Some (Inl NilDereference)
      | Some a \<Rightarrow>
          if currFrame a < 0 \<or> int (length (currFrames w a)) \<le> currFrame a
          then Some (Inl IndexOutOfRange)
          else if DurationMillis (currFrames w a ! nat (currFrame a)) <s accumMillis a
          then
            let a1 = a\<lparr>accumMillis :=
                        accumMillis a - DurationMillis (currFrames w a ! nat (currFrame a))\<rparr>;
                a2 = a1\<lparr>currFrame := (currFrame a1 + 1) mod int (length (currFrames w a1))\<rparr>;
                w2 = putAnimation w p a2;
                cb = callbackAt w2 a2 (currTag a2);
                tr2 = tr @ [Advanced (currTag a2) (currFrame a2) cb]
            in if currFrame a2 \<noteq> 0 \<or> cb = None
               then f run p w2 tr2
               else f run p (run (the cb) p w2) (tr2 @ [Fired (currTag a2) (the cb)])
          else Some (Inr (w, tr))) = Some r"
    then have body: "(case loop_guard w p of
        Inl e \<Rightarrow> Some (Inl e)
      | Inr False \<Rightarrow> Some (Inr (w, tr))
      | Inr True \<Rightarrow>
          f run p (after_callback run p (advance_frame w p))
            (tr @ advanced_event (advance_frame w p) p @ fired_event (advance_frame w p) p))
       = Some r"
      by (simp only: loop_body_pieces[where f = f and run = run and p = p and w = w and tr = tr])
    show "?P run p w tr r"
    proof (cases "loop_guard w p")
      case (Inl e)
      with body have "r = Inl e" by simp
      with Inl show ?thesis by (intro exI[of _ w] exI[of _ "[]"]) (simp add: iterations.none)
    next
      case (Inr b)
      show ?thesis
      proof (cases b)
        case False
        with body Inr have "r = Inr (w, tr)" by simp
        with Inr False show ?thesis
          by (intro exI[of _ w] exI[of _ "[]"]) (simp add: iterations.none)
      next
        case True
        let ?w2 = "advance_frame w p"
        let ?ev = "advanced_event ?w2 p @ fired_event ?w2 p"
        from body Inr True
        have "f run p (after_callback run p ?w2) (tr @ ?ev) = Some r" by simp
        from IH[OF this] obtain w' es where
          it: "iterations run p (after_callback run p ?w2) es w'" and
          res: "case loop_guard w' p of Inl e \<Rightarrow> r = Inl e
                | Inr b \<Rightarrow> \<not> b \<and> r = Inr (w', (tr @ ?ev) @ es)"
          by blast
        from Inr True it have "iterations run p w (?ev @ es) w'"
          using iterations.more[of w p run es w'] by simp
        with res show ?thesis
          by (intro exI[of _ w'] exI[of _ "?ev @ es"]) (simp split: sum.splits)
      qed
    qed
  qed
  then show ?thesis .
qed

text \<open>
  The loop returns when an invariant keeps the loop test from panicking and every
  iteration, callback included, keeps the invariant and lowers an accumulator that
  stays at or above zero.
\<close>

lemma Update_loop_returns:
  fixes I :: "'cb world \<Rightarrow> bool"
  assumes guard_ok: "\<And>w. I w \<Longrightarrow> \<exists>b. loop_guard w p = Inr b"
    and step: "\<And>w. I w \<Longrightarrow> loop_guard w p = Inr True \<Longrightarrow>
                 I (after_callback run p (advance_frame w p)) \<and>
                 0 \<le> sint (accumOf (after_callback run p (advance_frame w p)) p) \<and>
                 sint (accumOf (after_callback run p (advance_frame w p)) p) < sint (accumOf w p)"
    and init: "I w"
  shows "\<exists>w' es. Update_loop run p w tr = Some (Inr (w', tr @ es)) \<and>
           iterations run p w es w' \<and> I w' \<and> loop_guard w' p = Inr False"
  using init
proof (induction "nat (sint (accumOf w p))" arbitrary: w tr rule: less_induct)
  case less
  from guard_ok[OF less.prems] obtain b where g: "loop_guard w p = Inr b" by blast
  show ?case
  proof (cases b)
    case False
    with g less.prems show ?thesis
      by (intro exI[of _ w] exI[of _ "[]"]) (simp add: Update_loop_unfold iterations.none)
  next
    case True
    let ?w2 = "advance_frame w p"
    let ?w3 = "after_callback run p ?w2"
    let ?ev = "advanced_event ?w2 p @ fired_event ?w2 p"
    from step[OF less.prems] g True
    have I3: "I ?w3" and pos: "0 \<le> sint (accumOf ?w3 p)"
      and dec: "sint (accumOf ?w3 p) < sint (accumOf w p)" by simp_all
    from pos dec have "nat (sint (accumOf ?w3 p)) < nat (sint (accumOf w p))" by simp
    from less.hyps[OF this I3, of "tr @ ?ev"] obtain w' es where
      r: "Update_loop run p ?w3 (tr @ ?ev) = Some (Inr (w', (tr @ ?ev) @ es))" and
      it: "iterations run p ?w3 es w'" and I': "I w'" and g': "loop_guard w' p = Inr False"
      by blast
    from g True it have "iterations run p w (?ev @ es) w'"
      using iterations.more[of w p run es w'] by simp
    moreover have "Update_loop run p w tr = Some (Inr (w', tr @ ?ev @ es))"
      using r g True by (subst Update_loop_unfold) simp
    ultimately show ?thesis using I' g' by blast
  qed
qed

lemmas eval_defs = Update_def Update_loop_unfold loop_guard_def advance_frame_def
  after_callback_def pending_callback_def advanced_event_def fired_event_def
  getAnimation_def putAnimation_def currFrames_def callbackAt_def frameTable_def
  callbackTable_def at_tag_def world1_def mkAni_def no_effect_def word_sless_alt


lemma valid_guard:
  assumes "valid w p"
  obtains a where "getAnimation w p = Some a"
    and "0 \<le> currFrame a" and "currFrame a < int (length (currFrames w a))"
    and "\<forall>f \<in> set (currFrames w a). 0 <s DurationMillis f"
    and "loop_guard w p
           = Inr (DurationMillis (currFrames w a ! nat (currFrame a)) <s accumMillis a)"
  using assms by (auto simp: valid_def loop_guard_def split: option.splits)

lemma currFrames_putAnimation:
  "framesByTagName a' = framesByTagName a \<Longrightarrow> currTag a' = currTag a \<Longrightarrow>
   currFrames (putAnimation w p a') a' = currFrames w a"
  by (simp add: currFrames_def frameTable_def putAnimation_def split: option.splits)

text \<open>One run of the two assignments keeps a valid animation valid and lowers its
  accumulator, which stays above zero.\<close>

lemma advance_frame_valid:
  assumes "valid w p" and "loop_guard w p = Inr True"
  shows "valid (advance_frame w p) p"
    and "0 < sint (accumOf (advance_frame w p) p)"
    and "sint (accumOf (advance_frame w p) p) < sint (accumOf w p)"
proof -
  from assms(1) obtain a where a: "getAnimation w p = Some a"
    and lo: "0 \<le> currFrame a" and hi: "currFrame a < int (length (currFrames w a))"
    and pos: "\<forall>f \<in> set (currFrames w a). 0 <s DurationMillis f"
    and g: "loop_guard w p
           = Inr (DurationMillis (currFrames w a ! nat (currFrame a)) <s accumMillis a)"
    by (rule valid_guard)
  let ?d = "DurationMillis (currFrames w a ! nat (currFrame a))"
  let ?a' = "a\<lparr>accumMillis := accumMillis a - ?d,
               currFrame := (currFrame a + 1) mod int (length (currFrames w a))\<rparr>"
  from lo hi have "nat (currFrame a) < length (currFrames w a)" by simp
  then have "currFrames w a ! nat (currFrame a) \<in> set (currFrames w a)" by (rule nth_mem)
  with pos have dpos: "0 <s ?d" by blast
  from g assms(2) have dlt: "?d <s accumMillis a" by simp
  have p: "p < length (animations w)"
    using a by (simp add: getAnimation_def split: if_splits)
  have adv: "advance_frame w p = putAnimation w p ?a'"
    using a by (simp add: advance_frame_def)
  have get: "getAnimation (advance_frame w p) p = Some ?a'"
    using p by (simp add: adv getAnimation_putAnimation)
  have fr: "currFrames (advance_frame w p) ?a' = currFrames w a"
    unfolding adv by (rule currFrames_putAnimation) simp_all
  from hi lo have len: "0 < int (length (currFrames w a))" by linarith
  show "valid (advance_frame w p) p"
    using pos len by (simp add: valid_def get fr)
  have acc: "accumOf (advance_frame w p) p = accumMillis a - ?d"
    by (simp add: accumOf_def get)
  have acc0: "accumOf w p = accumMillis a" by (simp add: accumOf_def a)
  have s: "sint (accumMillis a - ?d) = sint (accumMillis a) - sint ?d"
    using dpos dlt by (rule sint_sub_pos)
  from dpos have "0 < sint ?d" by (simp add: word_sless_alt)
  moreover from dlt have "sint ?d < sint (accumMillis a)" by (simp add: word_sless_alt)
  ultimately show "0 < sint (accumOf (advance_frame w p) p)"
    and "sint (accumOf (advance_frame w p) p) < sint (accumOf w p)"
    by (simp_all add: acc acc0 s)
qed

lemma after_callback_keep:
  assumes "callbacks_keep run p" and "valid w p"
  shows "valid (after_callback run p w) p"
    and "accumOf (after_callback run p w) p = accumOf w p"
  using assms by (auto simp: callbacks_keep_def after_callback_def split: option.splits)

lemma Update_loop_valid_returns:
  fixes run :: "'cb \<Rightarrow> ref \<Rightarrow> 'cb world \<Rightarrow> 'cb world" and w :: "'cb world"
  assumes keep: "callbacks_keep run p" and v: "valid w p"
    and nonneg: "0 \<le> sint (accumOf w p) \<or> \<not> P"
  shows "\<exists>w' es. Update_loop run p w tr = Some (Inr (w', tr @ es)) \<and>
           iterations run p w es w' \<and> valid w' p \<and> (P \<longrightarrow> 0 \<le> sint (accumOf w' p)) \<and>
           loop_guard w' p = Inr False"
proof -
  let ?I = "\<lambda>w. valid w p \<and> (P \<longrightarrow> 0 \<le> sint (accumOf w p))"
  have "\<exists>w' es. Update_loop run p w tr = Some (Inr (w', tr @ es)) \<and>
           iterations run p w es w' \<and> ?I w' \<and> loop_guard w' p = Inr False"
  proof (rule Update_loop_returns[where I = ?I])
    fix w :: "'cb world" assume "?I w"
    then show "\<exists>b. loop_guard w p = Inr b" by (auto elim: valid_guard)
  next
    fix w :: "'cb world" assume I: "?I w" and g: "loop_guard w p = Inr True"
    from I have v: "valid w p" by simp
    note adv = advance_frame_valid[OF v g]
    note cb = after_callback_keep[OF keep adv(1)]
    show "?I (after_callback run p (advance_frame w p)) \<and>
          0 \<le> sint (accumOf (after_callback run p (advance_frame w p)) p) \<and>
          sint (accumOf (after_callback run p (advance_frame w p)) p) < sint (accumOf w p)"
      using adv cb by simp
  next
    show "?I w" using v nonneg by auto
  qed
  then show ?thesis by blast
qed

lemma valid_putAnimation_accum:
  assumes "valid w p" and "getAnimation w p = Some a"
  shows "valid (putAnimation w p (a\<lparr>accumMillis := x\<rparr>)) p"
    and "accumOf (putAnimation w p (a\<lparr>accumMillis := x\<rparr>)) p = x"
proof -
  have p: "p < length (animations w)"
    using assms(2) by (simp add: getAnimation_def split: if_splits)
  have fr: "currFrames (putAnimation w p (a\<lparr>accumMillis := x\<rparr>)) (a\<lparr>accumMillis := x\<rparr>)
              = currFrames w a"
    by (rule currFrames_putAnimation) simp_all
  show "valid (putAnimation w p (a\<lparr>accumMillis := x\<rparr>)) p"
    using assms p by (simp add: valid_def getAnimation_putAnimation fr)
  show "accumOf (putAnimation w p (a\<lparr>accumMillis := x\<rparr>)) p = x"
    using p by (simp add: accumOf_def getAnimation_putAnimation)
qed

text \<open>
  Claim C6, amended: for an animation whose current tag has a sequence that holds its
  frame index and whose frames all have a positive duration, and with callbacks that
  keep it so and leave the accumulator alone, every call to \<open>Update\<close> returns, without
  a panic: each iteration lowers the accumulator by a positive duration, and the
  accumulator stays above zero.
\<close>

theorem Update_terminates:
  assumes "valid w p" and "callbacks_keep run p"
  shows "\<exists>w' tr. Update run p w = Some (Inr (w', tr))"
proof -
  from assms(1) obtain a where a: "getAnimation w p = Some a" by (rule valid_guard)
  show ?thesis
  proof (cases "paused a")
    case True
    with a show ?thesis by (simp add: Update_def)
  next
    case False
    let ?w1 = "putAnimation w p (a\<lparr>accumMillis := accumMillis a + DeltaMillis w\<rparr>)"
    have "valid ?w1 p" using assms(1) a by (rule valid_putAnimation_accum)
    from Update_loop_valid_returns[OF assms(2) this, where P = False and tr = "[]"]
    obtain w' es where "Update_loop run p ?w1 [] = Some (Inr (w', es))" by auto
    with a False show ?thesis by (simp add: Update_def)
  qed
qed

lemma iterations_fixed:
  assumes "iterations run p w0 es w'"
    and "after_callback run p (advance_frame w p) = w" and "w0 = w"
  shows "w' = w"
  using assms by (induction rule: iterations.induct) simp_all

text \<open>An iteration that is entered and leaves the world as it found it repeats for ever.\<close>

lemma Update_loop_diverges:
  fixes run :: "'cb \<Rightarrow> ref \<Rightarrow> 'cb world \<Rightarrow> 'cb world"
  assumes g: "loop_guard w p = Inr True"
    and same: "after_callback run p (advance_frame w p) = w"
  shows "Update_loop run p w tr = None"
proof (cases "Update_loop run p w tr")
  case None
  then show ?thesis .
next
  case (Some r)
  from Update_loop_iterations[OF Some] obtain w' es where
    it: "iterations run p w es w'" and
    res: "case loop_guard w' p of Inl e \<Rightarrow> r = Inl e | Inr b \<Rightarrow> \<not> b \<and> r = Inr (w', tr @ es)"
    by blast
  from iterations_fixed[OF it same refl] have "w' = w" .
  with res g show ?thesis by simp
qed

text \<open>
  Claim C6, as the spec states it, fails: with one frame of duration 0 under the
  current tag, a valid and non-empty tag, and one millisecond elapsed, the loop test
  stays true and the iteration leaves the state as it was; \<open>Update\<close> does not
  return.
\<close>

theorem zero_duration_counterexample:
  "map (\<lambda>a. length (currFrames
          (world1 [[] \<mapsto> [mkAni 0 0]] Map.empty [] 0 0 1 :: unit world) a))
       (animations (world1 [[] \<mapsto> [mkAni 0 0]] Map.empty [] 0 0 1 :: unit world)) = [1] \<and>
   Update no_effect 0 (world1 [[] \<mapsto> [mkAni 0 0]] Map.empty [] 0 0 1 :: unit world) = None"
proof -
  let ?w1 = "world1 [[] \<mapsto> [mkAni 0 0]] Map.empty [] 0 1 1 :: unit world"
  have g: "loop_guard ?w1 0 = Inr True"
    by (simp add: eval_defs)
  have same: "after_callback no_effect 0 (advance_frame ?w1 0) = ?w1"
    by (simp add: eval_defs)
  have "Update_loop no_effect 0 ?w1 [] = None"
    using g same by (rule Update_loop_diverges)
  moreover have "Update no_effect 0 (world1 [[] \<mapsto> [mkAni 0 0]] Map.empty [] 0 0 1 :: unit world)
      = Update_loop no_effect 0 ?w1 []"
    by (simp add: Update_def getAnimation_def putAnimation_def world1_def)
  moreover have "map (\<lambda>a. length (currFrames
          (world1 [[] \<mapsto> [mkAni 0 0]] Map.empty [] 0 0 1 :: unit world) a))
       (animations (world1 [[] \<mapsto> [mkAni 0 0]] Map.empty [] 0 0 1 :: unit world)) = [1]"
    by (simp add: eval_defs)
  ultimately show ?thesis by simp
qed

lemma callbacks_keep_no_effect: "callbacks_keep no_effect p"
  by (simp add: callbacks_keep_def no_effect_def)

theorem Update_terminates_witness:
  "valid (world1 [[] \<mapsto> [mkAni 0 100, mkAni 1 500]] Map.empty [] 0 0 750 :: unit world) 0 \<and>
   callbacks_keep (no_effect :: unit \<Rightarrow> ref \<Rightarrow> unit world \<Rightarrow> unit world) 0 \<and>
   (\<exists>w' tr. Update no_effect 0
       (world1 [[] \<mapsto> [mkAni 0 100, mkAni 1 500]] Map.empty [] 0 0 750 :: unit world)
        = Some (Inr (w', tr)))"
proof -
  let ?w = "world1 [[] \<mapsto> [mkAni 0 100, mkAni 1 500]] Map.empty [] 0 0 750 :: unit world"
  have v: "valid ?w 0" by (simp add: valid_def eval_defs)
  have k: "callbacks_keep (no_effect :: unit \<Rightarrow> ref \<Rightarrow> unit world \<Rightarrow> unit world) 0"
    by (rule callbacks_keep_no_effect)
  from v k Update_terminates[OF v k] show ?thesis by simp
qed

text \<open>
  Claim C3, as the spec states it, fails at the upper bound: the loop runs while the
  accumulator exceeds the duration, so it can stop with the two equal.  One frame of
  100 ms and 100 ms elapsed leave the accumulator at 100, which is not below 100.
\<close>

theorem accumulator_equals_duration_counterexample:
  "Update no_effect 0 (world1 [[] \<mapsto> [mkAni 0 100]] Map.empty [] 0 0 100 :: unit world)
     = Some (Inr (world1 [[] \<mapsto> [mkAni 0 100]] Map.empty [] 0 100 100, [])) \<and>
   \<not> (100 :: 64 word) <s 100"
  by (simp add: eval_defs)

text \<open>
  Claim C3, amended: for an animation whose current tag has a sequence that holds its
  frame index and whose frames have positive durations, with callbacks that keep it
  so and leave the accumulator alone, and with an accumulator and a \<open>DeltaMillis\<close>
  that are not negative and whose sum fits \<open>int64\<close>, a call to \<open>Update\<close> returns and
  leaves \<open>0 \<le> a \<le> duration(currentFrame)\<close>; for a paused animation, which the call
  leaves as it is, that is so when the upper bound held before.
\<close>

theorem accumulator_bound:
  assumes v: "valid w p" and keep: "callbacks_keep run p"
    and a: "getAnimation w p = Some a"
    and before: "0 \<le>s accumMillis a" "0 \<le>s DeltaMillis w"
                "sint (accumMillis a) + sint (DeltaMillis w) < 2 ^ 63"
    and paused_ok: "paused a \<longrightarrow>
       accumMillis a \<le>s DurationMillis (currFrames w a ! nat (currFrame a))"
  shows "\<exists>w' tr a'. Update run p w = Some (Inr (w', tr)) \<and> getAnimation w' p = Some a' \<and>
           0 \<le> currFrame a' \<and> currFrame a' < int (length (currFrames w' a')) \<and>
           0 \<le>s accumMillis a' \<and>
           accumMillis a' \<le>s DurationMillis (currFrames w' a' ! nat (currFrame a'))"
proof (cases "paused a")
  case True
  from v a have "0 \<le> currFrame a \<and> currFrame a < int (length (currFrames w a))"
    by (simp add: valid_def)
  with True a before(1) paused_ok show ?thesis by (simp add: Update_def)
next
  case False
  let ?w1 = "putAnimation w p (a\<lparr>accumMillis := accumMillis a + DeltaMillis w\<rparr>)"
  note w1 = valid_putAnimation_accum[OF v a, of "accumMillis a + DeltaMillis w"]
  have "sint (accumMillis a + DeltaMillis w) = sint (accumMillis a) + sint (DeltaMillis w)"
    using before by (rule sint_add_nonneg)
  moreover from before have "0 \<le> sint (accumMillis a)" "0 \<le> sint (DeltaMillis w)"
    by (simp_all add: word_sle_eq)
  ultimately have nn: "0 \<le> sint (accumOf ?w1 p)" by (simp add: w1(2))
  from Update_loop_valid_returns[OF keep w1(1), where P = True and tr = "[]"] nn
  obtain w' es where r: "Update_loop run p ?w1 [] = Some (Inr (w', es))"
    and v': "valid w' p" and nn': "0 \<le> sint (accumOf w' p)"
    and g': "loop_guard w' p = Inr False" by auto
  from v' obtain a' where a': "getAnimation w' p = Some a'"
    and lo: "0 \<le> currFrame a'" and hi: "currFrame a' < int (length (currFrames w' a'))"
    and g: "loop_guard w' p
           = Inr (DurationMillis (currFrames w' a' ! nat (currFrame a')) <s accumMillis a')"
    by (rule valid_guard)
  from g g' have "accumMillis a' \<le>s DurationMillis (currFrames w' a' ! nat (currFrame a'))"
    by (simp add: word_sless_alt word_sle_eq)
  moreover from nn' a' have "0 \<le>s accumMillis a'" by (simp add: accumOf_def word_sle_eq)
  moreover have "Update run p w = Some (Inr (w', es))"
    using a False r by (simp add: Update_def)
  ultimately show ?thesis using a' lo hi by blast
qed

theorem accumulator_bound_witness:
  "valid (world1 [[] \<mapsto> [mkAni 0 100, mkAni 1 500]] Map.empty [] 0 0 750 :: unit world) 0 \<and>
   callbacks_keep (no_effect :: unit \<Rightarrow> ref \<Rightarrow> unit world \<Rightarrow> unit world) 0 \<and>
   Update no_effect 0
       (world1 [[] \<mapsto> [mkAni 0 100, mkAni 1 500]] Map.empty [] 0 0 750 :: unit world)
     = Some (Inr (world1 [[] \<mapsto> [mkAni 0 100, mkAni 1 500]] Map.empty [] 1 50 750,
                  [Advanced [] 1 None, Advanced [] 0 None, Advanced [] 1 None])) \<and>
   (0 :: 64 word) \<le>s 50 \<and> (50 :: 64 word) \<le>s 500"
proof -
  let ?w = "world1 [[] \<mapsto> [mkAni 0 100, mkAni 1 500]] Map.empty [] 0 0 750 :: unit world"
  let ?a = "\<lparr>paused = False, framesByTagName = Some 0, currTag = [],
                      currFrame = 0, accumMillis = 0, callbacks = Some 0,
                      Source = None, needsDraw = False\<rparr>"
  have v: "valid ?w 0" by (simp add: valid_def eval_defs)
  have k: "callbacks_keep (no_effect :: unit \<Rightarrow> ref \<Rightarrow> unit world \<Rightarrow> unit world) 0"
    by (rule callbacks_keep_no_effect)
  have a: "getAnimation ?w 0 = Some ?a" by (simp add: getAnimation_def world1_def)
  have b1: "0 \<le>s accumMillis ?a" by simp
  have b2: "0 \<le>s DeltaMillis ?w" by (simp add: world1_def word_sle_eq)
  have b3: "sint (accumMillis ?a) + sint (DeltaMillis ?w) < 2 ^ 63" by (simp add: world1_def)
  have b4: "paused ?a \<longrightarrow>
       accumMillis ?a \<le>s DurationMillis (currFrames ?w ?a ! nat (currFrame ?a))" by simp
  have e: "Update no_effect 0 ?w
     = Some (Inr (world1 [[] \<mapsto> [mkAni 0 100, mkAni 1 500]] Map.empty [] 1 50 750,
                  [Advanced [] 1 None, Advanced [] 0 None, Advanced [] 1 None]))"
    by (simp add: eval_defs)
  from v k e accumulator_bound[OF v k a b1 b2 b3 b4] show ?thesis
    by (simp add: word_sle_eq)
qed

section \<open>Callbacks\<close>








section \<open>Restart\<close>





section \<open>Clone\<close>





section \<open>Callbacks that change the tag\<close>
















section \<open>Construction and frame selection\<close>

text \<open>
  Claim C10: \<open>NewAnimation\<close> of a nil map returns nil and allocates nothing; of any
  other map it returns a new animation on that map whose current tag is the empty
  string, whose frame index is 0, which is not paused and has no callback registered.
\<close>

theorem NewAnimation_initial:
  "NewAnimation None w = (None, w) \<and>
   (\<exists>q w' a. NewAnimation (Some m) w = (Some q, w') \<and> getAnimation w' q = Some a \<and>
      getAnimation w q = None \<and>
      framesByTagName a = Some m \<and> currTag a = [] \<and> currFrame a = 0 \<and> \<not> paused a \<and>
      accumMillis a = 0 \<and>
      callbackTable w' (callbacks a) = Map.empty \<and> (\<forall>tag. callbackAt w' a tag = None) \<and>
      frameTables w' = frameTables w)"
  by (simp add: NewAnimation_def getAnimation_def callbackTable_def callbackAt_def)

text \<open>
  Claim C9: \<open>SetFrame\<close> returns the out-of-bounds error exactly when the index is
  outside \<open>[0, length)\<close> of the current tag's sequence, and then leaves the whole state
  as it was; otherwise it returns nil with the frame index set to the argument, and
  changes nothing else of the animation but \<open>needsDraw\<close>.
\<close>

theorem SetFrame_range:
  assumes "getAnimation w p = Some a"
  shows "((\<exists>w'. SetFrame p idx w = Inr (Some FrameIndexOutOfBounds, w'))
            \<longleftrightarrow> \<not> (0 \<le> idx \<and> idx < int (length (currFrames w a)))) \<and>
         (\<not> (0 \<le> idx \<and> idx < int (length (currFrames w a)))
            \<longrightarrow> SetFrame p idx w = Inr (Some FrameIndexOutOfBounds, w)) \<and>
         (0 \<le> idx \<and> idx < int (length (currFrames w a))
            \<longrightarrow> (\<exists>w' a'. SetFrame p idx w = Inr (None, w') \<and>
                   getAnimation w' p = Some a' \<and> currFrame a' = idx \<and>
                   a' = a\<lparr>needsDraw := True, currFrame := idx\<rparr> \<and>
                   (\<forall>q. q \<noteq> p \<longrightarrow> getAnimation w' q = getAnimation w q) \<and>
                   frameTables w' = frameTables w \<and> callbackTables w' = callbackTables w \<and>
                   DeltaMillis w' = DeltaMillis w))"
  using assms
  by (auto simp: SetFrame_def getAnimation_putAnimation putAnimation_def getAnimation_def)

theorem SetFrame_range_witness:
  "getAnimation (world1 [''walk'' \<mapsto> [mkAni 0 100, mkAni 1 500]] Map.empty ''walk'' 1 300 0
       :: unit world) 0 \<noteq> None \<and>
   SetFrame 0 2 (world1 [''walk'' \<mapsto> [mkAni 0 100, mkAni 1 500]] Map.empty ''walk'' 1 300 0
       :: unit world)
     = Inr (Some FrameIndexOutOfBounds,
            world1 [''walk'' \<mapsto> [mkAni 0 100, mkAni 1 500]] Map.empty ''walk'' 1 300 0) \<and>
   (\<exists>w'. SetFrame 0 0 (world1 [''walk'' \<mapsto> [mkAni 0 100, mkAni 1 500]] Map.empty ''walk'' 1 300 0
       :: unit world) = Inr (None, w') \<and>
          map_option currFrame (getAnimation w' 0) = Some 0)"
proof -
  let ?w = "world1 [''walk'' \<mapsto> [mkAni 0 100, mkAni 1 500]] Map.empty ''walk'' 1 300 0 :: unit world"
  let ?a = "\<lparr>paused = False, framesByTagName = Some 0, currTag = ''walk'',
                      currFrame = 1, accumMillis = 300, callbacks = Some 0,
                      Source = None, needsDraw = False\<rparr>"
  have g: "getAnimation ?w 0 = Some ?a"
    by (simp add: getAnimation_def world1_def)
  have l: "length (currFrames ?w ?a) = 2"
    by (simp add: currFrames_def frameTable_def world1_def at_tag_def)
  show ?thesis
    using g SetFrame_range[OF g, of 2] SetFrame_range[OF g, of 0]
    by (auto simp: l getAnimation_def)
qed

end
